theory Spec2Isabelle
  imports Complex_Main
begin

section \<open>Values, exceptions and containers\<close>

text \<open>
  The program computes with C++ \<open>double\<close>. A double is a finite value, an infinity or
  a NaN (\<open>ieee_double\<close>); the literals of the source (\<open>0.1\<close>, \<open>1.9\<close>, ...) stand for the
  decimal fractions they denote. The samples, the coefficients of the containers and the
  parameters are finite and are kept as \<open>real\<close>, and the stages of the pipeline are given
  with the arithmetic of the expressions they evaluate. The only place where the pipeline
  can divide by zero is the division of \<open>averageAndDisplay\<close>; a division of doubles does
  not trap there, it yields an IEEE special value, which \<open>ieee_div\<close> makes explicit. The
  argument of the two lookups is any double, NaN included.
\<close>

datatype ieee_double = Finite real | PlusInfinity | MinusInfinity | NaN

definition ieee_div :: "real \<Rightarrow> real \<Rightarrow> ieee_double" where
  "ieee_div x y =
     (if y \<noteq> 0 then Finite (x / y)
      else if x = 0 then NaN
      else if 0 < x then PlusInfinity
      else MinusInfinity)"

text \<open>The two exception classes the program throws, with the message of the throw.\<close>

datatype exception = runtime_error string | invalid_argument string

text \<open>
  \<open>Eigen::MatrixXd\<close> and \<open>Eigen::VectorXd\<close>: the dimensions and the coefficients.
  \<open>coeff m (i, j)\<close> is \<open>m(i, j)\<close> of the source; only the coefficients inside the
  dimensions belong to the container.
\<close>

record MatrixXd =
  rows :: nat
  cols :: nat
  coeff :: "nat \<times> nat \<Rightarrow> real"

record VectorXd =
  vsize :: nat
  vcoeff :: "nat \<Rightarrow> real"

text \<open>The coefficients of a container, read row by row.\<close>

definition matrix_rows :: "MatrixXd \<Rightarrow> real list list" where
  "matrix_rows m = map (\<lambda>i. map (\<lambda>j. coeff m (i, j)) [0..<cols m]) [0..<rows m]"

definition vector_list :: "VectorXd \<Rightarrow> real list" where
  "vector_list v = map (vcoeff v) [0..<vsize v]"

record SignalConfig =
  decayFactor :: real

record SignalConditioning =
  gain :: real
  offset :: real

definition default_gain :: real where
  "default_gain = 1.0"

definition default_offset :: real where
  "default_offset = 0.0"

definition default_SignalConfig :: SignalConfig where
  "default_SignalConfig = \<lparr>decayFactor = 0.1\<rparr>"

definition default_SignalConditioning :: SignalConditioning where
  "default_SignalConditioning = \<lparr>gain = default_gain, offset = default_offset\<rparr>"

section \<open>The lookup table\<close>

text \<open>
  The comparison \<open><\<close> of doubles, which \<open>std::map<double, double>\<close> uses to order and
  to find its keys: it is false as soon as one side is a NaN.
\<close>

fun double_less :: "ieee_double \<Rightarrow> ieee_double \<Rightarrow> bool" where
  "double_less NaN _ = False"
| "double_less _ NaN = False"
| "double_less (Finite x) (Finite y) = (x < y)"
| "double_less (Finite x) PlusInfinity = True"
| "double_less (Finite x) MinusInfinity = False"
| "double_less PlusInfinity _ = False"
| "double_less MinusInfinity MinusInfinity = False"
| "double_less MinusInfinity _ = True"

text \<open>The entries of the table, in the order of their keys, as the map holds them.\<close>

definition thermal_to_viscosity :: "(ieee_double \<times> ieee_double) list" where
  "thermal_to_viscosity =
     [(Finite 0.1, Finite 1.0), (Finite 0.2, Finite 1.1), (Finite 0.3, Finite 1.2),
      (Finite 0.4, Finite 1.3), (Finite 0.5, Finite 1.4), (Finite 0.6, Finite 1.5),
      (Finite 0.7, Finite 1.6), (Finite 0.8, Finite 1.7), (Finite 0.9, Finite 1.8),
      (Finite 1.0, Finite 1.9)]"

text \<open>
  The operations of \<open>std::map\<close> the lookups call. \<open>lower_bound\<close> is the search both are
  built on: it returns the position of the first entry whose key is not less than the
  key searched, as the entries from that position on (\<open>[]\<close> is \<open>end()\<close>). The map keeps
  its entries in a search tree and descends to the left wherever the key of a node is
  not less than the key searched; on the entries in key order that is the position given
  here, also for a NaN, for which the descent ends at the leftmost entry. \<open>find\<close> returns that
  entry unless the key searched is less than its key. The subscript returns the value of
  that entry under the same test; otherwise it would insert the key with the value 0.0
  and return that value. In the lookups the subscript runs only after \<open>find\<close> has
  succeeded on the same key, so it inserts nothing and the table is never changed.
\<close>

fun lower_bound :: "(ieee_double \<times> ieee_double) list \<Rightarrow> ieee_double \<Rightarrow> (ieee_double \<times> ieee_double) list" where
  "lower_bound [] key = []"
| "lower_bound ((k, v) # entries) key =
     (if double_less k key then lower_bound entries key else (k, v) # entries)"

definition map_find :: "(ieee_double \<times> ieee_double) list \<Rightarrow> ieee_double \<Rightarrow> (ieee_double \<times> ieee_double) option" where
  "map_find entries key =
     (case lower_bound entries key of
        [] \<Rightarrow> None
      | (k, v) # _ \<Rightarrow> if double_less key k then None else Some (k, v))"

definition map_subscript :: "(ieee_double \<times> ieee_double) list \<Rightarrow> ieee_double \<Rightarrow> ieee_double" where
  "map_subscript entries key =
     (case lower_bound entries key of
        [] \<Rightarrow> Finite 0.0
      | (k, v) # _ \<Rightarrow> if double_less key k then Finite 0.0 else v)"

definition lookupViscosity :: "ieee_double \<Rightarrow> exception + ieee_double" where
  "lookupViscosity thermal_conductivity =
     (if map_find thermal_to_viscosity thermal_conductivity \<noteq> None
      then Inr (map_subscript thermal_to_viscosity thermal_conductivity)
      else Inl (invalid_argument ''Invalid thermal conductivity value''))"

definition getViscosity :: "ieee_double \<Rightarrow> ieee_double" where
  "getViscosity thermal_conductivity =
     (if map_find thermal_to_viscosity thermal_conductivity \<noteq> None
      then map_subscript thermal_to_viscosity thermal_conductivity
      else Finite (- 1.0))"

section \<open>The pipeline stages\<close>

text \<open>
  The parsing loop of \<open>getDataFromSerial\<close>: every value read from the line is
  conditioned and appended to \<open>data\<close>. The serial port itself is outside the model; the
  values parsed from the line are the argument \<open>parsed\<close>.
\<close>

definition getDataFromSerial :: "real list \<Rightarrow> real list \<Rightarrow> SignalConditioning \<Rightarrow> real list" where
  "getDataFromSerial parsed data conditioning =
     fold (\<lambda>value data. data @ [value * gain conditioning + offset conditioning]) parsed data"

text \<open>
  \<open>int size = std::sqrt(raw_data.size())\<close>: the square root of the length, truncated
  towards zero (the root is not negative, so truncation is the floor). The variable
  \<open>size\<close> of the source is \<open>sz\<close> below.
\<close>

definition sqrt_size :: "nat \<Rightarrow> nat" where
  "sqrt_size n = nat \<lfloor>sqrt (real n)\<rfloor>"

text \<open>
  The loops of \<open>formatData\<close>. The state of the loops is the matrix and the running
  index \<open>k\<close>; the body \<open>formatData_store\<close> of the inner loop stores \<open>raw_data[k]\<close>
  at \<open>(i, j)\<close> and increments \<open>k\<close>, \<open>formatData_row\<close> is the inner loop for row \<open>i\<close>.
  \<open>resize\<close> sets the dimensions and leaves the coefficients unspecified: the model keeps
  the old ones, and every coefficient inside the new dimensions is overwritten by the
  loops.
\<close>

definition formatData_store :: "real list \<Rightarrow> nat \<Rightarrow> nat \<Rightarrow> MatrixXd \<times> nat \<Rightarrow> MatrixXd \<times> nat" where
  "formatData_store raw_data i j =
     (\<lambda>(fd, k). (fd\<lparr>coeff := (coeff fd)((i, j) := raw_data ! k)\<rparr>, Suc k))"

definition formatData_row :: "real list \<Rightarrow> nat \<Rightarrow> nat \<Rightarrow> MatrixXd \<times> nat \<Rightarrow> MatrixXd \<times> nat" where
  "formatData_row raw_data sz i = fold (formatData_store raw_data i) [0..<sz]"

definition formatData :: "real list \<Rightarrow> MatrixXd \<Rightarrow> exception + MatrixXd" where
  "formatData raw_data formatted_data =
     (if raw_data = [] then Inl (runtime_error ''Raw data is empty'')
      else
        let sz = sqrt_size (length raw_data);
            resized = formatted_data\<lparr>rows := sz, cols := sz\<rparr>
        in Inr (fst (fold (formatData_row raw_data sz) [0..<sz] (resized, 0))))"

text \<open>
  \<open>data.sum()\<close> of Eigen adds the coefficients (0 for an empty vector);
  \<open>averageAndDisplay\<close> divides it by the size, with no test of the size, and prints the
  quotient. The printed value is the result of the model. The function has no
  \<open>throw\<close>, so its result is always \<open>Inr\<close>.
\<close>

definition vector_sum :: "VectorXd \<Rightarrow> real" where
  "vector_sum data = fold (\<lambda>i s. s + vcoeff data i) [0..<vsize data] 0.0"

definition averageAndDisplay :: "VectorXd \<Rightarrow> exception + ieee_double" where
  "averageAndDisplay data = Inr (ieee_div (vector_sum data) (real (vsize data)))"

text \<open>
  \<open>curveFitting\<close>: \<open>curveFitting_term\<close> is the body of the inner loop, which adds
  the coefficient of row \<open>j\<close> weighted by \<open>exp(-decayFactor * j)\<close> to \<open>sum\<close>;
  \<open>curveFitting_column\<close> is the body of the outer loop, which runs the inner loop from
  \<open>sum = 0.0\<close> and stores the sum divided by the number of rows. \<open>result.resize\<close>
  sets the size; every coefficient inside it is overwritten by the outer loop.
\<close>

definition curveFitting_term :: "MatrixXd \<Rightarrow> SignalConfig \<Rightarrow> nat \<Rightarrow> nat \<Rightarrow> real \<Rightarrow> real" where
  "curveFitting_term data config i j =
     (\<lambda>sum. sum + coeff data (j, i) * exp (- decayFactor config * real j))"

definition curveFitting_column :: "MatrixXd \<Rightarrow> SignalConfig \<Rightarrow> nat \<Rightarrow> VectorXd \<Rightarrow> VectorXd" where
  "curveFitting_column data config i result =
     (let sum = fold (curveFitting_term data config i) [0..<rows data] 0.0
      in result\<lparr>vcoeff := (vcoeff result)(i := sum / real (rows data))\<rparr>)"

definition curveFitting :: "MatrixXd \<Rightarrow> VectorXd \<Rightarrow> SignalConfig \<Rightarrow> exception + VectorXd" where
  "curveFitting data result config =
     (if rows data = 0 \<or> cols data = 0 then Inl (runtime_error ''Data matrix is empty'')
      else Inr (fold (curveFitting_column data config) [0..<cols data]
                  (result\<lparr>vsize := cols data\<rparr>)))"

text \<open>
  The body of \<open>main\<close> after the interactive prompts: the conditioning and the
  configuration are the values the prompts left, \<open>parsed\<close> the values on the serial line.
  The first exception ends the run.
\<close>

definition main_run ::
  "SignalConditioning \<Rightarrow> SignalConfig \<Rightarrow> real list \<Rightarrow> MatrixXd \<Rightarrow> VectorXd \<Rightarrow> exception + ieee_double" where
  "main_run conditioning config parsed formatted_data result =
     (let raw_data = getDataFromSerial parsed [] conditioning in
      case formatData raw_data formatted_data of
        Inl e \<Rightarrow> Inl e
      | Inr formatted \<Rightarrow>
          (case lookupViscosity (Finite 0.1) of
             Inl e \<Rightarrow> Inl e
           | Inr example_viscosity \<Rightarrow>
               (case curveFitting formatted result config of
                  Inl e \<Rightarrow> Inl e
                | Inr fitted \<Rightarrow> averageAndDisplay fitted)))"

text \<open>The error kinds of the specification, as the exceptions the program throws for them.\<close>

definition EmptyInput :: exception where
  "EmptyInput = runtime_error ''Raw data is empty''"

definition EmptyMatrix :: exception where
  "EmptyMatrix = runtime_error ''Data matrix is empty''"

definition KeyNotFound :: exception where
  "KeyNotFound = invalid_argument ''Invalid thermal conductivity value''"


section \<open>Double arithmetic\<close>

text \<open>
  The claims on the value of the reduction (C1, C4, C8) concern the expression the code
  evaluates, and the stages above state it. A claim that compares results of the
  reduction on different inputs depends on what the operations of \<open>double\<close> do to that
  expression, so the inner loop of \<open>curveFitting\<close> is given a second time below, with
  every operation rounded as binary64 rounds it.

  \<open>round_double\<close> rounds a real to the nearest double, ties to the even significand:
  the magnitude is rounded to a multiple of the unit in the last place of its binade
  (53 significant bits; below \<open>2 ^ -1022\<close> the unit is that of the subnormal numbers,
  \<open>2 ^ -1074\<close>), and a magnitude that rounds to \<open>2 ^ 1024\<close> or more becomes an infinity.
  The sign of a zero is not modelled. \<open>std::exp\<close> is taken as the correctly rounded
  exponential; the conversion of the row index \<open>j\<close> and of the number of rows to
  \<open>double\<close> is exact.
\<close>

text \<open>The nearest integer, a tie going to the even one.\<close>

definition round_nearest_even :: "real \<Rightarrow> int" where
  "round_nearest_even y =
     (let f = \<lfloor>y\<rfloor> in
      if y - of_int f < 1 / 2 then f
      else if 1 / 2 < y - of_int f then f + 1
      else if even f then f else f + 1)"

definition ulp_exponent :: "real \<Rightarrow> int" where
  "ulp_exponent x = max \<lfloor>log 2 x\<rfloor> (- 1022) - 52"

definition round_magnitude :: "real \<Rightarrow> real" where
  "round_magnitude x =
     (if x = 0 then 0
      else of_int (round_nearest_even (x / 2 powr of_int (ulp_exponent x)))
           * 2 powr of_int (ulp_exponent x))"

definition round_double :: "real \<Rightarrow> ieee_double" where
  "round_double x =
     (if 2 ^ 1024 \<le> round_magnitude \<bar>x\<bar>
      then (if 0 < x then PlusInfinity else MinusInfinity)
      else Finite (sgn x * round_magnitude \<bar>x\<bar>))"

text \<open>The operations of the source on doubles, with the special values of IEEE 754.\<close>

fun double_neg :: "ieee_double \<Rightarrow> ieee_double" where
  "double_neg (Finite x) = Finite (- x)"
| "double_neg PlusInfinity = MinusInfinity"
| "double_neg MinusInfinity = PlusInfinity"
| "double_neg NaN = NaN"

fun double_mul :: "ieee_double \<Rightarrow> ieee_double \<Rightarrow> ieee_double" where
  "double_mul NaN _ = NaN"
| "double_mul _ NaN = NaN"
| "double_mul (Finite x) (Finite y) = round_double (x * y)"
| "double_mul (Finite x) PlusInfinity =
     (if x = 0 then NaN else if 0 < x then PlusInfinity else MinusInfinity)"
| "double_mul (Finite x) MinusInfinity =
     (if x = 0 then NaN else if 0 < x then MinusInfinity else PlusInfinity)"
| "double_mul PlusInfinity (Finite y) =
     (if y = 0 then NaN else if 0 < y then PlusInfinity else MinusInfinity)"
| "double_mul MinusInfinity (Finite y) =
     (if y = 0 then NaN else if 0 < y then MinusInfinity else PlusInfinity)"
| "double_mul PlusInfinity PlusInfinity = PlusInfinity"
| "double_mul PlusInfinity MinusInfinity = MinusInfinity"
| "double_mul MinusInfinity PlusInfinity = MinusInfinity"
| "double_mul MinusInfinity MinusInfinity = PlusInfinity"

fun double_add :: "ieee_double \<Rightarrow> ieee_double \<Rightarrow> ieee_double" where
  "double_add NaN _ = NaN"
| "double_add _ NaN = NaN"
| "double_add (Finite x) (Finite y) = round_double (x + y)"
| "double_add PlusInfinity MinusInfinity = NaN"
| "double_add MinusInfinity PlusInfinity = NaN"
| "double_add PlusInfinity _ = PlusInfinity"
| "double_add MinusInfinity _ = MinusInfinity"
| "double_add (Finite x) y = y"

fun double_div :: "ieee_double \<Rightarrow> ieee_double \<Rightarrow> ieee_double" where
  "double_div NaN _ = NaN"
| "double_div _ NaN = NaN"
| "double_div (Finite x) (Finite y) =
     (if y \<noteq> 0 then round_double (x / y)
      else if x = 0 then NaN
      else if 0 < x then PlusInfinity
      else MinusInfinity)"
| "double_div (Finite x) _ = Finite 0"
| "double_div PlusInfinity (Finite y) = (if 0 \<le> y then PlusInfinity else MinusInfinity)"
| "double_div MinusInfinity (Finite y) = (if 0 \<le> y then MinusInfinity else PlusInfinity)"
| "double_div _ _ = NaN"

fun double_exp :: "ieee_double \<Rightarrow> ieee_double" where
  "double_exp (Finite x) = round_double (exp x)"
| "double_exp PlusInfinity = PlusInfinity"
| "double_exp MinusInfinity = Finite 0"
| "double_exp NaN = NaN"

text \<open>
  \<open>weight_double\<close> is \<open>std::exp(-config.decayFactor * j)\<close>, \<open>curveFitting_term_double\<close>
  the body of the inner loop, and \<open>curveFitting_entry_double\<close> the value stored in
  \<open>result(i)\<close> for a matrix that has passed the test of \<open>curveFitting\<close>: the inner loop
  run from \<open>sum = 0.0\<close>, divided by the number of rows.
\<close>

definition weight_double :: "SignalConfig \<Rightarrow> nat \<Rightarrow> ieee_double" where
  "weight_double config j =
     double_exp (double_mul (double_neg (Finite (decayFactor config))) (Finite (real j)))"

definition curveFitting_term_double ::
  "MatrixXd \<Rightarrow> SignalConfig \<Rightarrow> nat \<Rightarrow> nat \<Rightarrow> ieee_double \<Rightarrow> ieee_double" where
  "curveFitting_term_double data config i j =
     (\<lambda>sum. double_add sum (double_mul (Finite (coeff data (j, i))) (weight_double config j)))"

definition curveFitting_entry_double :: "MatrixXd \<Rightarrow> SignalConfig \<Rightarrow> nat \<Rightarrow> ieee_double" where
  "curveFitting_entry_double data config i =
     (let sum = fold (curveFitting_term_double data config i) [0..<rows data] (Finite 0.0)
      in double_div sum (Finite (real (rows data))))"


section \<open>Square root of the length\<close>

lemma sqrt_size_unique:
  assumes "k * k \<le> n" "n < Suc k * Suc k"
  shows "sqrt_size n = k"
proof -
  have "real k * real k \<le> real n"
    using assms(1) by (metis of_nat_le_iff of_nat_mult)
  then have "(real k)\<^sup>2 \<le> real n" by (simp add: power2_eq_square)
  then have lo: "real k \<le> sqrt (real n)"
    by (simp add: real_le_rsqrt)
  have "real n < real (Suc k) * real (Suc k)"
    using assms(2) by (metis of_nat_less_iff of_nat_mult)
  then have "real n < (real (Suc k))\<^sup>2" by (simp add: power2_eq_square)
  then have hi: "sqrt (real n) < real (Suc k)"
    by (simp add: real_less_lsqrt)
  have "\<lfloor>sqrt (real n)\<rfloor> = int k"
    using lo hi by (intro floor_unique) auto
  then show ?thesis by (simp add: sqrt_size_def)
qed

lemma sqrt_size_lower: "sqrt_size n * sqrt_size n \<le> n"
proof -
  have nn: "0 \<le> sqrt (real n)" by simp
  then have fl: "0 \<le> \<lfloor>sqrt (real n)\<rfloor>" by simp
  have "real (sqrt_size n) = of_int \<lfloor>sqrt (real n)\<rfloor>"
    using fl by (simp add: sqrt_size_def)
  then have le: "real (sqrt_size n) \<le> sqrt (real n)" by simp
  have "real (sqrt_size n) * real (sqrt_size n) \<le> sqrt (real n) * sqrt (real n)"
    using le by (intro mult_mono) auto
  then have "real (sqrt_size n * sqrt_size n) \<le> real n" by simp
  then show ?thesis by (simp only: of_nat_le_iff)
qed

lemma sqrt_size_upper: "n < Suc (sqrt_size n) * Suc (sqrt_size n)"
proof -
  have fl: "0 \<le> \<lfloor>sqrt (real n)\<rfloor>" by simp
  have "real (sqrt_size n) = of_int \<lfloor>sqrt (real n)\<rfloor>"
    using fl by (simp add: sqrt_size_def)
  then have lt: "sqrt (real n) < real (Suc (sqrt_size n))" by simp linarith
  have "sqrt (real n) * sqrt (real n) < real (Suc (sqrt_size n)) * real (Suc (sqrt_size n))"
    using lt by (intro mult_strict_mono') auto
  then have "real n < real (Suc (sqrt_size n)) * real (Suc (sqrt_size n))" by simp
  then have "real n < real (Suc (sqrt_size n) * Suc (sqrt_size n))"
    by (simp only: of_nat_mult)
  then show ?thesis by (simp only: of_nat_less_iff)
qed

lemma sqrt_size_pos: "0 < n \<Longrightarrow> 0 < sqrt_size n"
proof (rule ccontr)
  assume "0 < n" "\<not> 0 < sqrt_size n"
  then have "sqrt_size n = 0" by simp
  with sqrt_size_upper[of n] have "n < 1" by simp
  with \<open>0 < n\<close> show False by simp
qed


lemma formatData_store_apply:
  "formatData_store raw_data i j (fd, k)
   = (fd\<lparr>coeff := (coeff fd)((i, j) := raw_data ! k)\<rparr>, Suc k)"
  by (simp add: formatData_store_def)

lemma formatData_row_upto:
  "fold (formatData_store raw_data i) [0..<n] (fd, k)
   = (fd\<lparr>coeff := (\<lambda>(a, b). if a = i \<and> b < n then raw_data ! (k + b) else coeff fd (a, b))\<rparr>,
      k + n)"
proof (induction n)
  case 0
  show ?case by simp
next
  case (Suc n)
  show ?case
    by (simp add: Suc formatData_store_apply)
       (auto intro!: MatrixXd.equality simp: fun_eq_iff less_Suc_eq)
qed

lemma formatData_row_eq:
  "formatData_row raw_data sz i (fd, k)
   = (fd\<lparr>coeff := (\<lambda>(a, b). if a = i \<and> b < sz then raw_data ! (k + b) else coeff fd (a, b))\<rparr>,
      k + sz)"
  unfolding formatData_row_def by (rule formatData_row_upto)

lemma formatData_rows_upto:
  "fold (formatData_row raw_data sz) [0..<n] (fd, 0)
   = (fd\<lparr>coeff := (\<lambda>(a, b). if a < n \<and> b < sz then raw_data ! (a * sz + b) else coeff fd (a, b))\<rparr>,
      n * sz)"
proof (induction n)
  case 0
  show ?case by simp
next
  case (Suc n)
  show ?case
    by (simp add: Suc formatData_row_eq)
       (auto intro!: MatrixXd.equality simp: fun_eq_iff less_Suc_eq)
qed

lemma fold_term_sum:
  "fold (curveFitting_term data config i) [0..<n] a
   = a + (\<Sum>j<n. coeff data (j, i) * exp (- decayFactor config * real j))"
  by (induction n) (simp_all add: curveFitting_term_def)

lemma curveFitting_column_apply:
  "curveFitting_column data config i r
   = r\<lparr>vcoeff := (vcoeff r)
       (i := (\<Sum>j<rows data. coeff data (j, i) * exp (- decayFactor config * real j))
             / real (rows data))\<rparr>"
  by (simp add: curveFitting_column_def fold_term_sum)

lemma fold_upt_Suc: "fold f [0..<Suc n] a = f n (fold f [0..<n] a)"
  by simp

lemma curveFitting_upto:
  "fold (curveFitting_column data config) [0..<n] r
   = r\<lparr>vcoeff := (\<lambda>i. if i < n
        then (\<Sum>j<rows data. coeff data (j, i) * exp (- decayFactor config * real j)) / real (rows data)
        else vcoeff r i)\<rparr>"
proof (induction n)
  case 0
  show ?case by simp
next
  case (Suc n)
  show ?case
    unfolding fold_upt_Suc Suc
    by (rule VectorXd.equality)
       (auto simp: curveFitting_column_apply fun_eq_iff less_Suc_eq)
qed

lemma fold_add_sum:
  "fold (\<lambda>j (s::real). s + f j) [0..<n] a = a + (\<Sum>j<n. f j)"
  by (induction n) simp_all

lemma vector_sum_eq: "vector_sum data = (\<Sum>i<vsize data. vcoeff data i)"
  by (simp add: vector_sum_def fold_add_sum)

section \<open>Results of the loops\<close>

lemma formatData_result:
  assumes "raw_data \<noteq> []"
  shows "formatData raw_data fd
    = Inr (fd\<lparr>rows := sqrt_size (length raw_data), cols := sqrt_size (length raw_data),
              coeff := (\<lambda>(a, b).
                 if a < sqrt_size (length raw_data) \<and> b < sqrt_size (length raw_data)
                 then raw_data ! (a * sqrt_size (length raw_data) + b) else coeff fd (a, b))\<rparr>)"
  using assms
  by (simp add: formatData_def Let_def formatData_rows_upto)
     (auto intro!: MatrixXd.equality simp: fun_eq_iff)

lemma curveFitting_result:
  assumes "0 < rows data" "0 < cols data"
  shows "curveFitting data result config
    = Inr (result\<lparr>vsize := cols data,
              vcoeff := (\<lambda>i. if i < cols data
                then (\<Sum>j<rows data. coeff data (j, i) * exp (- decayFactor config * real j))
                     / real (rows data)
                else vcoeff result i)\<rparr>)"
  using assms
  by (simp add: curveFitting_def curveFitting_upto)
     (auto intro!: VectorXd.equality simp: fun_eq_iff)

lemma row_major_index:
  assumes "k < sz * (sz::nat)"
  shows "k div sz < sz" "k mod sz < sz" "k div sz * sz + k mod sz = k"
proof -
  have pos: "0 < sz" using assms by (cases sz) auto
  show "k div sz < sz" using assms pos by (simp add: less_mult_imp_div_less)
  show "k mod sz < sz" using pos by simp
  show "k div sz * sz + k mod sz = k" by simp
qed

lemma concat_rows_take:
  assumes "n * sz \<le> length xs"
  shows "concat (map (\<lambda>i. map (\<lambda>j. xs ! (i * sz + j)) [0..<sz]) [0..<n]) = take (n * sz) xs"
  using assms
proof (induction n)
  case 0
  show ?case by simp
next
  case (Suc n)
  have le: "n * sz + sz \<le> length xs" using Suc.prems by (simp add: add.commute)
  have row: "map (\<lambda>j. xs ! (n * sz + j)) [0..<sz] = take sz (drop (n * sz) xs)"
    using le by (intro nth_equalityI) auto
  have "concat (map (\<lambda>i. map (\<lambda>j. xs ! (i * sz + j)) [0..<sz]) [0..<Suc n])
        = take (n * sz) xs @ take sz (drop (n * sz) xs)"
    using Suc.IH le row by simp
  also have "\<dots> = take (n * sz + sz) xs" by (simp add: take_add)
  finally show ?case by (simp add: add.commute)
qed

section \<open>Reshaping\<close>

text \<open>
  C7. \<open>formatData\<close> applied to the empty sequence throws the exception of the empty
  input (\<open>EmptyInput\<close>), whatever the matrix passed in, and so returns no matrix.
\<close>

theorem formatData_empty_fails:
  "formatData [] formatted_data = Inl EmptyInput
   \<and> (\<nexists>m. formatData [] formatted_data = Inr m)"
  by (simp add: formatData_def EmptyInput_def)

text \<open>
  C2. For a non-empty sequence of \<open>N\<close> samples \<open>formatData\<close> returns a square matrix of
  dimension \<open>sz = floor (sqrt N)\<close> with \<open>sz * sz \<le> N\<close>. Sample \<open>k < sz * sz\<close> is the
  coefficient at row \<open>k div sz\<close>, column \<open>k mod sz\<close>; the coefficient at \<open>(i, j)\<close> is the
  sample at the row-major index \<open>i * sz + j\<close>; and the matrix read row by row is the
  first \<open>sz * sz\<close> samples, so the samples from index \<open>sz * sz\<close> on are dropped.
\<close>

theorem formatData_row_major:
  assumes "raw_data \<noteq> []" and sz: "sz = sqrt_size (length raw_data)"
  shows "\<exists>m. formatData raw_data formatted_data = Inr m
           \<and> rows m = sz \<and> cols m = sz
           \<and> sz = nat \<lfloor>sqrt (real (length raw_data))\<rfloor>
           \<and> sz * sz \<le> length raw_data
           \<and> (\<forall>k<sz * sz. coeff m (k div sz, k mod sz) = raw_data ! k)
           \<and> (\<forall>i<sz. \<forall>j<sz. coeff m (i, j) = raw_data ! (i * sz + j))
           \<and> concat (matrix_rows m) = take (sz * sz) raw_data"
proof -
  define m where "m = formatted_data\<lparr>rows := sz, cols := sz,
     coeff := (\<lambda>(a, b). if a < sz \<and> b < sz then raw_data ! (a * sz + b)
                          else coeff formatted_data (a, b))\<rparr>"
  have res: "formatData raw_data formatted_data = Inr m"
    unfolding m_def sz by (rule formatData_result[OF assms(1)])
  have dims: "rows m = sz" "cols m = sz" by (simp_all add: m_def)
  have root: "sz = nat \<lfloor>sqrt (real (length raw_data))\<rfloor>"
    by (simp add: sz sqrt_size_def)
  have fits: "sz * sz \<le> length raw_data"
    unfolding sz by (rule sqrt_size_lower)
  have cell: "coeff m (i, j) = raw_data ! (i * sz + j)" if "i < sz" "j < sz" for i j
    using that by (simp add: m_def)
  have at: "coeff m (k div sz, k mod sz) = raw_data ! k" if "k < sz * sz" for k
    using cell[OF row_major_index(1,2)[OF that]] row_major_index(3)[OF that] by simp
  have "matrix_rows m = map (\<lambda>i. map (\<lambda>j. raw_data ! (i * sz + j)) [0..<sz]) [0..<sz]"
    by (simp add: matrix_rows_def dims cell)
  then have flat: "concat (matrix_rows m) = take (sz * sz) raw_data"
    using concat_rows_take[OF fits] by simp
  show ?thesis
    using res dims root fits cell at flat by blast
qed

theorem formatData_row_major_witness:
  "\<exists>m. formatData [1, 2, 3, 4, 5] \<lparr>rows = 0, cols = 0, coeff = (\<lambda>_. 0)\<rparr> = Inr m
       \<and> rows m = 2 \<and> cols m = 2
       \<and> coeff m (1, 0) = 3
       \<and> concat (matrix_rows m) = [1, 2, 3, 4]"
proof -
  have nonempty: "[1, 2, 3, 4, 5 :: real] \<noteq> []" by simp
  have root: "2 = sqrt_size (length [1, 2, 3, 4, 5 :: real])"
    by (rule sqrt_size_unique[symmetric]) simp_all
  from formatData_row_major[OF nonempty root, of "\<lparr>rows = 0, cols = 0, coeff = (\<lambda>_. 0)\<rparr>"]
  obtain m where m: "formatData [1, 2, 3, 4, 5] \<lparr>rows = 0, cols = 0, coeff = (\<lambda>_. 0)\<rparr> = Inr m"
      "rows m = 2" "cols m = 2"
      "\<forall>k<2 * 2. coeff m (k div 2, k mod 2) = [1, 2, 3, 4, 5] ! k"
      "concat (matrix_rows m) = take (2 * 2) [1, 2, 3, 4, 5]"
    by blast
  have "coeff m (1, 0) = 3"
    using m(4)[THEN spec, of 2] by simp
  moreover from m(5) have "concat (matrix_rows m) = [1, 2, 3, 4]" by simp
  ultimately show ?thesis using m(1-3) by blast
qed

section \<open>The weighted reduction\<close>

text \<open>
  C1. For a matrix with at least one row and one column and any decay factor,
  \<open>curveFitting\<close> returns a vector whose length is the number of columns, and whose
  entry \<open>i\<close> is the sum over the rows \<open>j\<close> of \<open>data(j, i) * exp(-decayFactor * j)\<close>
  divided by the number of rows (not by the sum of the weights).
\<close>

theorem curveFitting_weighted_sum:
  assumes "0 < rows data" "0 < cols data"
  shows "\<exists>r. curveFitting data result config = Inr r
           \<and> vsize r = cols data
           \<and> length (vector_list r) = cols data
           \<and> (\<forall>i<cols data.
                 vcoeff r i
                 = (\<Sum>j<rows data. coeff data (j, i) * exp (- decayFactor config * real j))
                   / real (rows data))"
  by (simp add: curveFitting_result[OF assms] vector_list_def)

theorem curveFitting_weighted_sum_witness:
  "\<exists>r. curveFitting \<lparr>rows = 2, cols = 1, coeff = (\<lambda>(j, i). if j = 0 then 1 else 3)\<rparr>
          \<lparr>vsize = 0, vcoeff = (\<lambda>_. 0)\<rparr> \<lparr>decayFactor = 1\<rparr> = Inr r
       \<and> vsize r = 1
       \<and> vcoeff r 0 = (1 + 3 * exp (- 1)) / 2"
proof -
  let ?data = "\<lparr>rows = 2, cols = 1, coeff = (\<lambda>(j, i). if j = 0 then 1 else (3::real))\<rparr>"
  have r: "0 < rows ?data" and c: "0 < cols ?data" by simp_all
  from curveFitting_weighted_sum[OF r c, of "\<lparr>vsize = 0, vcoeff = (\<lambda>_. 0)\<rparr>" "\<lparr>decayFactor = 1\<rparr>"]
  obtain v where v: "curveFitting ?data \<lparr>vsize = 0, vcoeff = (\<lambda>_. 0)\<rparr> \<lparr>decayFactor = 1\<rparr> = Inr v"
      "vsize v = cols ?data"
      "\<forall>i<cols ?data.
          vcoeff v i
          = (\<Sum>j<rows ?data. coeff ?data (j, i) * exp (- decayFactor \<lparr>decayFactor = 1\<rparr> * real j))
            / real (rows ?data)"
    by blast
  have "vcoeff v 0 = (1 + 3 * exp (- 1)) / 2"
    using v(3)[THEN spec, of 0] by (simp add: lessThan_Suc numeral_2_eq_2)
  then show ?thesis using v(1,2) by simp
qed

text \<open>
  C4. With decay factor 0 every weight \<open>exp(-decayFactor * j)\<close> is 1, and for a matrix
  with at least one row and one column entry \<open>i\<close> of the result of \<open>curveFitting\<close> is the
  plain mean of column \<open>i\<close>: the sum of the column divided by the number of rows.
\<close>

theorem curveFitting_zero_decay_mean:
  assumes "decayFactor config = 0" "0 < rows data" "0 < cols data"
  shows "\<exists>r. curveFitting data result config = Inr r
           \<and> (\<forall>j. exp (- decayFactor config * real j) = 1)
           \<and> (\<forall>i<cols data.
                 vcoeff r i = (\<Sum>j<rows data. coeff data (j, i)) / real (rows data))"
  by (simp add: curveFitting_result[OF assms(2,3)] assms(1))

theorem curveFitting_zero_decay_mean_witness:
  "\<exists>r. curveFitting \<lparr>rows = 2, cols = 2, coeff = (\<lambda>(j, i). real (2 * j + i + 1))\<rparr>
          \<lparr>vsize = 0, vcoeff = (\<lambda>_. 0)\<rparr> \<lparr>decayFactor = 0\<rparr> = Inr r
       \<and> vcoeff r 0 = 2 \<and> vcoeff r 1 = 3"
proof -
  let ?data = "\<lparr>rows = 2, cols = 2, coeff = (\<lambda>(j, i). real (2 * j + i + 1))\<rparr>"
  have d: "decayFactor \<lparr>decayFactor = 0\<rparr> = 0" and r: "0 < rows ?data" and c: "0 < cols ?data"
    by simp_all
  from curveFitting_zero_decay_mean[OF d r c, of "\<lparr>vsize = 0, vcoeff = (\<lambda>_. 0)\<rparr>"]
  obtain v where v: "curveFitting ?data \<lparr>vsize = 0, vcoeff = (\<lambda>_. 0)\<rparr> \<lparr>decayFactor = 0\<rparr> = Inr v"
      "\<forall>i<cols ?data. vcoeff v i = (\<Sum>j<rows ?data. coeff ?data (j, i)) / real (rows ?data)"
    by blast
  have "vcoeff v 0 = 2"
    using v(2)[THEN spec, of 0] by (simp add: lessThan_Suc numeral_2_eq_2)
  moreover have "vcoeff v 1 = 3"
    using v(2)[THEN spec, of 1] by (simp add: lessThan_Suc numeral_2_eq_2)
  ultimately show ?thesis using v(1) by simp
qed

section \<open>Rounding to double\<close>

lemma rne_of_int: "round_nearest_even (of_int n) = n"
  by (simp add: round_nearest_even_def)

lemma rne_range: "round_nearest_even y = \<lfloor>y\<rfloor> \<or> round_nearest_even y = \<lfloor>y\<rfloor> + 1"
  by (simp add: round_nearest_even_def Let_def)

lemma rne_mono:
  assumes "a \<le> b"
  shows "round_nearest_even a \<le> round_nearest_even b"
proof (cases "\<lfloor>a\<rfloor> = \<lfloor>b\<rfloor>")
  case True
  have "a - of_int \<lfloor>a\<rfloor> \<le> b - of_int \<lfloor>a\<rfloor>" using assms by simp
  then show ?thesis
    using True by (auto simp: round_nearest_even_def Let_def)
next
  case False
  then have "\<lfloor>a\<rfloor> < \<lfloor>b\<rfloor>" using floor_mono[OF assms] by simp
  then show ?thesis
    using rne_range[of a] rne_range[of b] by auto
qed

lemma rne_ge: "of_int n \<le> y \<Longrightarrow> n \<le> round_nearest_even y"
  using rne_mono[of "of_int n" y] by (simp add: rne_of_int)

lemma rne_le: "y \<le> of_int n \<Longrightarrow> round_nearest_even y \<le> n"
  using rne_mono[of y "of_int n"] by (simp add: rne_of_int)

lemma ulp_exponent_mono:
  assumes "0 < x" "x \<le> y"
  shows "ulp_exponent x \<le> ulp_exponent y"
proof -
  have "log 2 x \<le> log 2 y" using assms by simp
  then have "\<lfloor>log 2 x\<rfloor> \<le> \<lfloor>log 2 y\<rfloor>" by (rule floor_mono)
  then show ?thesis by (simp add: ulp_exponent_def)
qed

lemma below_next_binade:
  assumes "0 < x"
  shows "x < 2 powr of_int (ulp_exponent x + 53)"
proof -
  have "x < 2 powr (of_int \<lfloor>log 2 x\<rfloor> + 1)"
    using assms floor_log_eq_powr_iff[of x 2 "\<lfloor>log 2 x\<rfloor>"] by simp
  also have "\<dots> \<le> 2 powr of_int (ulp_exponent x + 53)"
    by (simp add: ulp_exponent_def)
  finally show ?thesis .
qed

lemma above_binade:
  assumes "0 < x" "- 1074 < ulp_exponent x"
  shows "2 powr of_int (ulp_exponent x + 52) \<le> x"
proof -
  have e: "ulp_exponent x + 52 = \<lfloor>log 2 x\<rfloor>"
    using assms(2) by (simp add: ulp_exponent_def max_def split: if_splits)
  have "2 powr of_int \<lfloor>log 2 x\<rfloor> \<le> x"
    using assms(1) floor_log_eq_powr_iff[of x 2 "\<lfloor>log 2 x\<rfloor>"] by simp
  then show ?thesis by (simp only: e)
qed

lemma round_magnitude_nonneg:
  assumes "0 \<le> x"
  shows "0 \<le> round_magnitude x"
proof (cases "x = 0")
  case True
  then show ?thesis by (simp add: round_magnitude_def)
next
  case False
  have "of_int 0 \<le> x / 2 powr of_int (ulp_exponent x)" using assms by simp
  then have "0 \<le> round_nearest_even (x / 2 powr of_int (ulp_exponent x))" by (rule rne_ge)
  then show ?thesis using False by (simp add: round_magnitude_def)
qed

lemma round_magnitude_upper:
  assumes "0 < x"
  shows "round_magnitude x \<le> 2 powr of_int (ulp_exponent x + 53)"
proof -
  let ?e = "ulp_exponent x"
  have "x / 2 powr of_int ?e \<le> 2 powr of_int (?e + 53) / 2 powr of_int ?e"
    using below_next_binade[OF assms] by (simp add: divide_right_mono)
  also have "\<dots> = 2 powr 53" by (simp add: powr_add)
  also have "\<dots> = of_int (2 ^ 53)" by simp
  finally have "round_nearest_even (x / 2 powr of_int ?e) \<le> 2 ^ 53" by (rule rne_le)
  then have "real_of_int (round_nearest_even (x / 2 powr of_int ?e)) \<le> real_of_int (2 ^ 53)"
    by (simp only: of_int_le_iff)
  then have "round_magnitude x \<le> of_int (2 ^ 53) * 2 powr of_int ?e"
    using assms by (simp add: round_magnitude_def)
  also have "\<dots> = 2 powr 53 * 2 powr of_int ?e" by simp
  also have "\<dots> = 2 powr of_int (?e + 53)" by (simp add: powr_add)
  finally show ?thesis .
qed

lemma round_magnitude_lower:
  assumes "0 < x" "- 1074 < ulp_exponent x"
  shows "2 powr of_int (ulp_exponent x + 52) \<le> round_magnitude x"
proof -
  let ?e = "ulp_exponent x"
  have "2 powr of_int (?e + 52) / 2 powr of_int ?e \<le> x / 2 powr of_int ?e"
    using above_binade[OF assms] by (simp add: divide_right_mono)
  moreover have "(2::real) powr of_int (?e + 52) / 2 powr of_int ?e = 2 powr 52"
    by (simp add: powr_add)
  moreover have "(2::real) powr 52 = of_int (2 ^ 52)" by simp
  ultimately have "of_int (2 ^ 52) \<le> x / 2 powr of_int ?e" by simp
  then have "2 ^ 52 \<le> round_nearest_even (x / 2 powr of_int ?e)" by (rule rne_ge)
  then have "real_of_int (2 ^ 52) \<le> real_of_int (round_nearest_even (x / 2 powr of_int ?e))"
    by (simp only: of_int_le_iff)
  then have "of_int (2 ^ 52) * 2 powr of_int ?e \<le> round_magnitude x"
    using assms by (simp add: round_magnitude_def)
  moreover have "real_of_int (2 ^ 52) * 2 powr of_int ?e = 2 powr 52 * 2 powr of_int ?e" by simp
  moreover have "(2::real) powr 52 * 2 powr of_int ?e = 2 powr of_int (?e + 52)"
    by (simp add: powr_add)
  ultimately show ?thesis by simp
qed

lemma round_magnitude_mono:
  assumes "0 \<le> x" "x \<le> y"
  shows "round_magnitude x \<le> round_magnitude y"
proof (cases "x = 0")
  case True
  then show ?thesis
    using round_magnitude_nonneg[of y] assms by (simp add: round_magnitude_def)
next
  case False
  then have x: "0 < x" and y: "0 < y" using assms by simp_all
  have le: "ulp_exponent x \<le> ulp_exponent y" using x assms(2) by (rule ulp_exponent_mono)
  show ?thesis
  proof (cases "ulp_exponent x = ulp_exponent y")
    case True
    have "x / 2 powr of_int (ulp_exponent y) \<le> y / 2 powr of_int (ulp_exponent y)"
      using assms(2) by (simp add: divide_right_mono)
    then have "round_nearest_even (x / 2 powr of_int (ulp_exponent y))
               \<le> round_nearest_even (y / 2 powr of_int (ulp_exponent y))"
      by (rule rne_mono)
    then show ?thesis
      using x y True by (simp add: round_magnitude_def)
  next
    case False
    then have lt: "ulp_exponent x + 1 \<le> ulp_exponent y" using le by simp
    have low: "- 1074 \<le> ulp_exponent x" by (simp add: ulp_exponent_def)
    then have normal: "- 1074 < ulp_exponent y" using lt by simp
    have "round_magnitude x \<le> 2 powr of_int (ulp_exponent x + 53)"
      using x by (rule round_magnitude_upper)
    also have "\<dots> \<le> 2 powr of_int (ulp_exponent y + 52)"
      using lt by simp
    also have "\<dots> \<le> round_magnitude y"
      using y normal by (rule round_magnitude_lower)
    finally show ?thesis .
  qed
qed

lemma round_magnitude_nat:
  assumes "n < 2 ^ 53"
  shows "round_magnitude (real n) = real n"
proof (cases "n = 0")
  case True
  then show ?thesis by (simp add: round_magnitude_def)
next
  case False
  then have pos: "0 < real n" by simp
  let ?e = "ulp_exponent (real n)"
  have "real n < real (2 ^ 53)" using assms by (simp only: of_nat_less_iff)
  then have "real n < 2 powr 53" by simp
  then have "log 2 (real n) < 53" using pos by (simp add: log_less_iff)
  then have "\<lfloor>log 2 (real n)\<rfloor> \<le> 52" by linarith
  moreover have "1 \<le> real n" using False by simp
  then have "0 \<le> log 2 (real n)" by simp
  then have "0 \<le> \<lfloor>log 2 (real n)\<rfloor>" by simp
  ultimately have e: "?e \<le> 0" by (simp add: ulp_exponent_def)
  have "real_of_int ?e = - real (nat (- ?e))" using e by simp
  then have "2 powr of_int ?e = 2 powr (- real (nat (- ?e)))" by (simp only:)
  also have "\<dots> = 1 / 2 powr real (nat (- ?e))" by (rule powr_minus_divide)
  also have "\<dots> = 1 / 2 ^ nat (- ?e)" by (simp add: powr_realpow)
  finally have p: "(2::real) powr of_int ?e = 1 / 2 ^ nat (- ?e)" .
  have "real n / 2 powr of_int ?e = of_int (int n * 2 ^ nat (- ?e))"
    by (simp add: p)
  then have "round_nearest_even (real n / 2 powr of_int ?e) = int n * 2 ^ nat (- ?e)"
    by (simp only: rne_of_int)
  then show ?thesis
    using False by (simp add: round_magnitude_def p)
qed


lemma round_magnitude_0: "round_magnitude 0 = 0"
  by (simp add: round_magnitude_def)

lemma round_double_nonneg:
  assumes "0 \<le> x" "round_magnitude x < 2 ^ 1024"
  shows "round_double x = Finite (round_magnitude x)"
proof (cases "x = 0")
  case True
  then show ?thesis by (simp add: round_double_def round_magnitude_0)
next
  case False
  then have "0 < x" using assms(1) by simp
  then show ?thesis using assms(2) by (simp add: round_double_def)
qed

lemma round_double_nonpos:
  assumes "0 \<le> x" "round_magnitude x < 2 ^ 1024"
  shows "round_double (- x) = Finite (- round_magnitude x)"
proof (cases "x = 0")
  case True
  then show ?thesis by (simp add: round_double_def round_magnitude_0)
next
  case False
  then have "0 < x" using assms(1) by simp
  then show ?thesis using assms(2) by (simp add: round_double_def)
qed

lemma round_double_nonpos_overflow:
  assumes "0 \<le> x" "2 ^ 1024 \<le> round_magnitude x"
  shows "round_double (- x) = MinusInfinity"
  using assms by (simp add: round_double_def)

lemma round_magnitude_nat_finite:
  assumes "n < 2 ^ 53"
  shows "round_magnitude (real n) < 2 ^ 1024"
proof -
  have "real n < real (2 ^ 53)" using assms by (simp only: of_nat_less_iff)
  also have "\<dots> < 2 ^ 1024" by simp
  finally show ?thesis by (simp only: round_magnitude_nat[OF assms])
qed

lemma round_double_nat:
  assumes "n < 2 ^ 53"
  shows "round_double (real n) = Finite (real n)"
  using round_double_nonneg[OF _ round_magnitude_nat_finite[OF assms]]
  by (simp add: round_magnitude_nat[OF assms])

lemma round_double_neg_nat:
  assumes "n < 2 ^ 53"
  shows "round_double (- real n) = Finite (- real n)"
  using round_double_nonpos[OF _ round_magnitude_nat_finite[OF assms]]
  by (simp add: round_magnitude_nat[OF assms])


lemma rne_below_half:
  assumes "of_int n \<le> y" "y < of_int n + 1 / 2"
  shows "round_nearest_even y = n"
proof -
  have "\<lfloor>y\<rfloor> = n" using assms by linarith
  then show ?thesis using assms by (simp add: round_nearest_even_def)
qed

lemma rne_above_half:
  assumes "of_int n - 1 / 2 < y" "y \<le> of_int n"
  shows "round_nearest_even y = n"
proof (cases "y = of_int n")
  case True
  then show ?thesis by (simp add: rne_of_int)
next
  case False
  then have "\<lfloor>y\<rfloor> = n - 1" using assms by linarith
  then show ?thesis using assms by (simp add: round_nearest_even_def)
qed

lemma rne_tie_even:
  assumes "y = of_int n + 1 / 2" "even n"
  shows "round_nearest_even y = n"
proof -
  have "\<lfloor>y\<rfloor> = n" using assms(1) by linarith
  then show ?thesis using assms by (simp add: round_nearest_even_def)
qed

lemma round_magnitude_binade_53:
  assumes "2 ^ 53 \<le> x" "x < 2 ^ 54"
  shows "round_magnitude x = 2 * of_int (round_nearest_even (x / 2))"
proof -
  have pos: "0 < x" using assms(1) by (rule less_le_trans[rotated]) simp
  have "(2::real) powr of_int 53 \<le> x \<and> x < 2 powr (of_int 53 + 1)"
    using assms by simp
  then have "\<lfloor>log 2 x\<rfloor> = 53"
    using pos floor_log_eq_powr_iff[of x 2 53] by simp
  then have "ulp_exponent x = 1" by (simp add: ulp_exponent_def)
  then show ?thesis using pos by (simp add: round_magnitude_def)
qed

lemma round_magnitude_half:
  assumes "2 powr (- 1000) \<le> x"
  shows "round_magnitude (x / 2) = round_magnitude x / 2"
proof -
  have pos: "0 < x" using assms by (rule less_le_trans[rotated]) simp
  have "- 1000 \<le> log 2 x" using assms pos by (simp add: le_log_iff)
  then have fl: "- 1000 \<le> \<lfloor>log 2 x\<rfloor>" by linarith
  have "log 2 (x / 2) = log 2 x - 1" using pos by (simp add: log_divide)
  then have "\<lfloor>log 2 (x / 2)\<rfloor> = \<lfloor>log 2 x\<rfloor> - 1" by simp
  then have e: "ulp_exponent (x / 2) = ulp_exponent x - 1"
    using fl by (simp add: ulp_exponent_def)
  have p: "(2::real) powr (of_int (ulp_exponent x) - 1) = 2 powr of_int (ulp_exponent x) / 2"
    by (simp add: powr_diff)
  show ?thesis using pos by (simp add: round_magnitude_def e p)
qed

lemma round_magnitude_quarters:
  "round_magnitude (1 / 4) = 1 / 4" "round_magnitude (3 / 4) = 3 / 4"
  "round_magnitude (3 / 2) = 3 / 2"
proof -
  have small: "(2::real) powr (- 1000) \<le> 1 / 2"
    using powr_mono[of "- 1000" "- 1" "2::real"] by (simp add: powr_minus_divide)
  have one: "round_magnitude 1 = 1" using round_magnitude_nat[of 1] by simp
  have three: "round_magnitude 3 = 3" using round_magnitude_nat[of 3] by simp
  have half: "round_magnitude (1 / 2) = 1 / 2"
    using round_magnitude_half[of 1] small one by simp
  show "round_magnitude (1 / 4) = 1 / 4"
    using round_magnitude_half[of "1 / 2"] small half by simp
  show t2: "round_magnitude (3 / 2) = 3 / 2"
    using round_magnitude_half[of 3] small three by simp
  show "round_magnitude (3 / 4) = 3 / 4"
    using round_magnitude_half[of "3 / 2"] small t2 by simp
qed

section \<open>The weights in double arithmetic\<close>

lemma round_magnitude_exp_le_1:
  assumes "t \<le> 0"
  shows "round_magnitude (exp t) \<le> 1"
proof -
  have "round_magnitude (exp t) \<le> round_magnitude 1"
    using assms by (intro round_magnitude_mono) simp_all
  moreover have "round_magnitude 1 = 1"
    using round_magnitude_nat[of 1] by simp
  ultimately show ?thesis by simp
qed

lemma double_exp_nonpos:
  assumes "t \<le> 0"
  shows "double_exp (Finite t) = Finite (round_magnitude (exp t))"
proof -
  have "round_magnitude (exp t) < 2 ^ 1024"
    using round_magnitude_exp_le_1[OF assms] by simp
  then show ?thesis
    using round_double_nonneg[of "exp t"] by simp
qed

lemma weight_double_eq:
  assumes "0 \<le> decayFactor config"
  shows "weight_double config j
    = Finite (if 2 ^ 1024 \<le> round_magnitude (decayFactor config * real j) then 0
              else round_magnitude (exp (- round_magnitude (decayFactor config * real j))))"
proof -
  let ?x = "decayFactor config * real j"
  have x: "0 \<le> ?x" using assms by simp
  have arg: "double_mul (double_neg (Finite (decayFactor config))) (Finite (real j))
             = round_double (- ?x)"
    by simp
  show ?thesis
  proof (cases "2 ^ 1024 \<le> round_magnitude ?x")
    case True
    then show ?thesis
      unfolding weight_double_def arg
      by (simp add: round_double_nonpos_overflow[OF x])
  next
    case False
    then have fin: "round_magnitude ?x < 2 ^ 1024" by simp
    have "- round_magnitude ?x \<le> 0" using round_magnitude_nonneg[OF x] by simp
    then have "double_exp (Finite (- round_magnitude ?x))
               = Finite (round_magnitude (exp (- round_magnitude ?x)))"
      by (rule double_exp_nonpos)
    then show ?thesis
      unfolding weight_double_def arg round_double_nonpos[OF x fin]
      using False by (simp only: if_False)
  qed
qed



lemma weight_double_row0:
  assumes "0 \<le> decayFactor config"
  shows "weight_double config 0 = Finite 1"
  using weight_double_eq[OF assms, of 0] round_magnitude_nat[of 1]
  by (simp add: round_magnitude_0)





lemma round_double_near_1e16:
  assumes "0 \<le> a" "a \<le> 1"
  shows "round_double (10 ^ 16 + a) = Finite (10 ^ 16)"
proof -
  let ?x = "10 ^ 16 + a :: real"
  have lo: "2 ^ 53 \<le> ?x" using assms by simp
  have hi: "?x < 2 ^ 54" using assms by simp
  have half: "?x / 2 = of_int 5000000000000000 + a / 2" by simp
  have "round_nearest_even (?x / 2) = 5000000000000000"
  proof (cases "a = 1")
    case True
    then have "?x / 2 = of_int 5000000000000000 + 1 / 2" by simp
    then show ?thesis by (rule rne_tie_even) simp
  next
    case False
    then have "a / 2 < 1 / 2" using assms by simp
    then show ?thesis
      unfolding half using assms(1) by (intro rne_below_half) simp_all
  qed
  then have m: "round_magnitude ?x = 10 ^ 16"
    unfolding round_magnitude_binade_53[OF lo hi] by simp
  have nonneg: "0 \<le> ?x" using assms by simp
  have fin: "round_magnitude ?x < 2 ^ 1024" unfolding m by simp
  show ?thesis using round_double_nonneg[OF nonneg fin] unfolding m .
qed

lemma round_double_above_1e16:
  assumes "3 / 2 \<le> a" "a \<le> 2"
  shows "round_double (10 ^ 16 + a) = Finite (10 ^ 16 + 2)"
proof -
  let ?x = "10 ^ 16 + a :: real"
  have lo: "2 ^ 53 \<le> ?x" using assms by simp
  have hi: "?x < 2 ^ 54" using assms by simp
  have "of_int 5000000000000001 - 1 / 2 < ?x / 2" "?x / 2 \<le> of_int 5000000000000001"
    using assms by simp_all
  then have "round_nearest_even (?x / 2) = 5000000000000001"
    by (rule rne_above_half)
  then have m: "round_magnitude ?x = 10 ^ 16 + 2"
    unfolding round_magnitude_binade_53[OF lo hi] by simp
  have nonneg: "0 \<le> ?x" using assms by simp
  have fin: "round_magnitude ?x < 2 ^ 1024" unfolding m by simp
  show ?thesis using round_double_nonneg[OF nonneg fin] unfolding m .
qed

lemma round_double_between:
  assumes "0 \<le> lo" "lo \<le> x" "x \<le> hi"
    and "round_magnitude lo = lo" "round_magnitude hi = hi" "hi < 2 ^ 1024"
  shows "\<exists>y. round_double x = Finite y \<and> lo \<le> y \<and> y \<le> hi"
proof -
  have x: "0 \<le> x" using assms(1,2) by simp
  have l: "lo \<le> round_magnitude x"
    using round_magnitude_mono[OF assms(1,2)] assms(4) by simp
  have h: "round_magnitude x \<le> hi"
    using round_magnitude_mono[OF x assms(3)] assms(5) by simp
  then have "round_magnitude x < 2 ^ 1024" using assms(6) by simp
  then have "round_double x = Finite (round_magnitude x)"
    using x by (simp only: round_double_nonneg)
  then show ?thesis using l h by blast
qed

lemma weight_double_default_row1:
  "\<exists>w. weight_double default_SignalConfig 1 = Finite w \<and> 3 / 4 \<le> w \<and> w \<le> 1"
proof -
  let ?m = "round_magnitude (1 / 10)"
  have d: "decayFactor default_SignalConfig = 1 / 10"
    by (simp add: default_SignalConfig_def)
  have m_hi: "?m \<le> 1 / 4"
    using round_magnitude_mono[of "1 / 10" "1 / 4"] by (simp add: round_magnitude_quarters)
  have m_lo: "0 \<le> ?m" by (rule round_magnitude_nonneg) simp
  have fin: "\<not> 2 ^ 1024 \<le> ?m" using m_hi by simp
  have w: "weight_double default_SignalConfig 1 = Finite (round_magnitude (exp (- ?m)))"
    using weight_double_eq[of default_SignalConfig 1] fin by (simp add: d)
  have "3 / 4 \<le> exp (- (1 / 4 :: real))"
    using exp_ge_add_one_self[of "- (1 / 4) :: real"] by simp
  also have "\<dots> \<le> exp (- ?m)" using m_hi by simp
  finally have "3 / 4 \<le> exp (- ?m)" .
  then have "round_magnitude (3 / 4) \<le> round_magnitude (exp (- ?m))"
    by (intro round_magnitude_mono) simp_all
  then have lo: "3 / 4 \<le> round_magnitude (exp (- ?m))"
    by (simp add: round_magnitude_quarters)
  have hi: "round_magnitude (exp (- ?m)) \<le> 1"
    using m_lo by (intro round_magnitude_exp_le_1) simp
  show ?thesis using w lo hi by blast
qed




lemma entry_double_absorbs:
  assumes "rows data = 2" "coeff data (0, 0) = 10 ^ 16 + a" "0 \<le> a" "a \<le> 1"
    and "coeff data (Suc 0, 0) = 1"
  shows "curveFitting_entry_double data default_SignalConfig 0 = Finite 5000000000000000"
proof -
  obtain w where w: "weight_double default_SignalConfig (Suc 0) = Finite w" "3 / 4 \<le> w" "w \<le> 1"
    using weight_double_default_row1 by auto
  have w0: "weight_double default_SignalConfig 0 = Finite 1"
    by (rule weight_double_row0) (simp add: default_SignalConfig_def)
  have up2: "[0..<2] = [0, Suc 0]" by (simp add: upt_rec)
  have t0: "double_mul (Finite (coeff data (0, 0))) (Finite 1) = Finite (10 ^ 16)"
    using round_double_near_1e16[OF assms(3,4)] by (simp add: assms(2))
  have s0: "double_add (Finite 0) (Finite (10 ^ 16)) = Finite (10 ^ 16)"
    using round_double_near_1e16[of 0] by simp
  obtain y where y: "round_double w = Finite y" "3 / 4 \<le> y" "y \<le> 1"
    using round_double_between[of "3 / 4" w 1] w(2,3) round_magnitude_nat[of 1]
    by (auto simp: round_magnitude_quarters)
  have t1: "double_mul (Finite (coeff data (Suc 0, 0))) (Finite w) = Finite y"
    using y(1) by (simp add: assms(5))
  have s1: "double_add (Finite (10 ^ 16)) (Finite y) = Finite (10 ^ 16)"
    using round_double_near_1e16[of y] y(2,3) by simp
  have q: "double_div (Finite (10 ^ 16)) (Finite 2) = Finite 5000000000000000"
    using round_double_nat[of 5000000000000000] by simp
  have "curveFitting_entry_double data default_SignalConfig 0
        = double_div
            (double_add
               (double_add (Finite 0) (double_mul (Finite (coeff data (0, 0))) (Finite 1)))
               (double_mul (Finite (coeff data (Suc 0, 0))) (Finite w)))
            (Finite 2)"
    by (simp add: curveFitting_entry_double_def curveFitting_term_double_def assms(1) up2
        w0 w(1) del: upt.simps double_mul.simps double_add.simps double_div.simps)
  then show ?thesis by (simp only: t0 s0 t1 s1 q)
qed

lemma entry_double_counts:
  assumes "rows data = 2" "coeff data (0, 0) = 10 ^ 16" "coeff data (Suc 0, 0) = 2"
  shows "curveFitting_entry_double data default_SignalConfig 0 = Finite 5000000000000001"
proof -
  obtain w where w: "weight_double default_SignalConfig (Suc 0) = Finite w" "3 / 4 \<le> w" "w \<le> 1"
    using weight_double_default_row1 by auto
  have w0: "weight_double default_SignalConfig 0 = Finite 1"
    by (rule weight_double_row0) (simp add: default_SignalConfig_def)
  have up2: "[0..<2] = [0, Suc 0]" by (simp add: upt_rec)
  have t0: "double_mul (Finite (coeff data (0, 0))) (Finite 1) = Finite (10 ^ 16)"
    using round_double_near_1e16[of 0] by (simp add: assms(2))
  have s0: "double_add (Finite 0) (Finite (10 ^ 16)) = Finite (10 ^ 16)"
    using round_double_near_1e16[of 0] by simp
  obtain y where y: "round_double (2 * w) = Finite y" "3 / 2 \<le> y" "y \<le> 2"
    using round_double_between[of "3 / 2" "2 * w" 2] w(2,3) round_magnitude_nat[of 2]
    by (auto simp: round_magnitude_quarters)
  have t1: "double_mul (Finite (coeff data (Suc 0, 0))) (Finite w) = Finite y"
    using y(1) by (simp add: assms(3))
  have s1: "double_add (Finite (10 ^ 16)) (Finite y) = Finite (10 ^ 16 + 2)"
    using round_double_above_1e16[of y] y(2,3) by simp
  have q: "double_div (Finite (10 ^ 16 + 2)) (Finite 2) = Finite 5000000000000001"
    using round_double_nat[of 5000000000000001] by simp
  have "curveFitting_entry_double data default_SignalConfig 0
        = double_div
            (double_add
               (double_add (Finite 0) (double_mul (Finite (coeff data (0, 0))) (Finite 1)))
               (double_mul (Finite (coeff data (Suc 0, 0))) (Finite w)))
            (Finite 2)"
    by (simp add: curveFitting_entry_double_def curveFitting_term_double_def assms(1) up2
        w0 w(1) del: upt.simps double_mul.simps double_add.simps double_div.simps)
  then show ?thesis by (simp only: t0 s0 t1 s1 q)
qed

text \<open>
  Rounding of the sum can also reverse the order. With the default decay factor 0.1 and
  the column \<open>[1e16, 1]\<close>: adding 1 to the coefficient of row 0 leaves the coefficient, and
  so the entry of the result, unchanged, since \<open>1e16 + 1\<close> rounds to \<open>1e16\<close>; adding 1 to
  the coefficient of row 1 raises the entry from \<open>5e15\<close> to \<open>5e15 + 1\<close>.
\<close>

lemma curveFitting_double_later_change_larger:
  "double_add (Finite (10 ^ 16)) (Finite 1) = Finite (10 ^ 16)
   \<and> double_add (Finite 1) (Finite 1) = Finite 2
   \<and> curveFitting_entry_double
        \<lparr>rows = 2, cols = 1, coeff = (\<lambda>(j, i). if j = 0 then 10 ^ 16 else 1)\<rparr>
        default_SignalConfig 0 = Finite 5000000000000000
   \<and> curveFitting_entry_double
        \<lparr>rows = 2, cols = 1, coeff = (\<lambda>(j, i). if j = 0 then 10 ^ 16 else 2)\<rparr>
        default_SignalConfig 0 = Finite 5000000000000001"
proof -
  have "double_add (Finite (10 ^ 16)) (Finite 1) = Finite (10 ^ 16)"
    using round_double_near_1e16[of 1] by simp
  moreover have "double_add (Finite 1) (Finite 1) = Finite 2"
    using round_double_nat[of 2] by simp
  moreover have "curveFitting_entry_double
        \<lparr>rows = 2, cols = 1, coeff = (\<lambda>(j, i). if j = 0 then 10 ^ 16 else 1)\<rparr>
        default_SignalConfig 0 = Finite 5000000000000000"
    by (rule entry_double_absorbs[where a = 0]) simp_all
  moreover have "curveFitting_entry_double
        \<lparr>rows = 2, cols = 1, coeff = (\<lambda>(j, i). if j = 0 then 10 ^ 16 else 2)\<rparr>
        default_SignalConfig 0 = Finite 5000000000000001"
    by (rule entry_double_counts) simp_all
  ultimately show ?thesis by simp
qed

section \<open>The average\<close>

lemma averageAndDisplay_nonempty:
  assumes "0 < vsize data"
  shows "averageAndDisplay data = Inr (Finite ((\<Sum>i<vsize data. vcoeff data i) / real (vsize data)))"
  using assms by (simp add: averageAndDisplay_def ieee_div_def vector_sum_eq)

text \<open>
  C3. \<open>averageAndDisplay\<close> has no test of the size. On the empty vector it divides the
  sum 0 by the size 0 and prints the quotient, which is not a number; it throws nothing,
  on this vector or on any other.
\<close>

theorem averageAndDisplay_empty_no_guard:
  "vector_list \<lparr>vsize = 0, vcoeff = (\<lambda>_. 0)\<rparr> = []
   \<and> averageAndDisplay \<lparr>vsize = 0, vcoeff = (\<lambda>_. 0)\<rparr> = Inr NaN
   \<and> (\<forall>data. \<nexists>e. averageAndDisplay data = Inl e)"
  by (simp add: averageAndDisplay_def vector_list_def vector_sum_def ieee_div_def)

section \<open>The lookup table\<close>

text \<open>
  For every key that is not a NaN the two lookups do what their comments say: a stored
  key gives its stored viscosity from both, a key that is not stored makes
  \<open>lookupViscosity\<close> throw and \<open>getViscosity\<close> return the sentinel \<open>-1.0\<close>.
\<close>

lemma map_subscript_found:
  assumes "map_find entries key = Some (k, v)"
  shows "map_subscript entries key = v"
  using assms
  by (auto simp: map_find_def map_subscript_def split: list.splits if_splits)

lemma map_find_ordered_key:
  assumes "key \<noteq> NaN"
  shows "map_find thermal_to_viscosity key = map_option (Pair key) (map_of thermal_to_viscosity key)"
proof (cases key)
  case (Finite x)
  then show ?thesis
    by (simp add: map_find_def thermal_to_viscosity_def)
next
  case PlusInfinity
  then show ?thesis by (simp add: map_find_def thermal_to_viscosity_def)
next
  case MinusInfinity
  then show ?thesis by (simp add: map_find_def thermal_to_viscosity_def)
next
  case NaN
  with assms show ?thesis by simp
qed

lemma lookup_ordered_key:
  assumes "key \<noteq> NaN"
  shows "(\<forall>v. (key, v) \<in> set thermal_to_viscosity \<longrightarrow>
             lookupViscosity key = Inr v \<and> getViscosity key = v)
       \<and> (key \<notin> fst ` set thermal_to_viscosity \<longrightarrow>
             lookupViscosity key = Inl KeyNotFound \<and> getViscosity key = Finite (- 1.0))"
proof -
  have dist: "distinct (map fst thermal_to_viscosity)"
    by (simp add: thermal_to_viscosity_def)
  have found: "lookupViscosity key = Inr v \<and> getViscosity key = v"
    if "(key, v) \<in> set thermal_to_viscosity" for v
  proof -
    have "map_of thermal_to_viscosity key = Some v"
      using dist that by (rule map_of_is_SomeI)
    then have f: "map_find thermal_to_viscosity key = Some (key, v)"
      by (simp add: map_find_ordered_key[OF assms])
    from map_subscript_found[OF f] f show ?thesis
      by (simp add: lookupViscosity_def getViscosity_def)
  qed
  have missed: "lookupViscosity key = Inl KeyNotFound \<and> getViscosity key = Finite (- 1.0)"
    if "key \<notin> fst ` set thermal_to_viscosity"
  proof -
    have "map_of thermal_to_viscosity key = None"
      using that by (simp add: map_of_eq_None_iff)
    then have "map_find thermal_to_viscosity key = None"
      by (simp add: map_find_ordered_key[OF assms])
    then show ?thesis
      by (simp add: lookupViscosity_def getViscosity_def KeyNotFound_def)
  qed
  from found missed show ?thesis by blast
qed

text \<open>
  C6. The claim fails on the code for the key NaN. NaN is not a key of the table, but
  every comparison with it is false, so \<open>find\<close> stops at the first entry, the one of
  key 0.1, and \<open>lookupViscosity\<close> returns its viscosity 1.0 instead of throwing the
  exception of the missing key.
\<close>

theorem lookupViscosity_NaN_found:
  "NaN \<notin> fst ` set thermal_to_viscosity
   \<and> map_find thermal_to_viscosity NaN = Some (Finite 0.1, Finite 1.0)
   \<and> lookupViscosity NaN = Inr (Finite 1.0)
   \<and> lookupViscosity NaN \<noteq> Inl KeyNotFound"
  by (simp add: lookupViscosity_def map_find_def map_subscript_def thermal_to_viscosity_def)

text \<open>
  C10. No viscosity stored in the table is the sentinel \<open>-1.0\<close>, but the claim fails on
  the code for the key NaN: NaN is not a key of the table and \<open>getViscosity\<close> returns
  the viscosity 1.0 of the first entry for it, not the sentinel.
\<close>

theorem getViscosity_NaN_not_sentinel:
  "NaN \<notin> fst ` set thermal_to_viscosity
   \<and> Finite (- 1.0) \<notin> snd ` set thermal_to_viscosity
   \<and> getViscosity NaN = Finite 1.0
   \<and> getViscosity NaN \<noteq> Finite (- 1.0)"
  by (simp add: getViscosity_def map_find_def map_subscript_def thermal_to_viscosity_def)

section \<open>The composed pipeline\<close>

lemma getDataFromSerial_eq:
  "getDataFromSerial parsed data conditioning
   = data @ map (\<lambda>value. value * gain conditioning + offset conditioning) parsed"
  unfolding getDataFromSerial_def
  by (induction parsed arbitrary: data) simp_all

lemma lookupViscosity_example: "lookupViscosity (Finite 0.1) = Inr (Finite 1.0)"
  by (simp add: lookupViscosity_def map_find_def map_subscript_def thermal_to_viscosity_def)

text \<open>
  C8. The samples 1 to 9 with gain 1, offset 0 and decay factor 0: conditioning leaves
  them unchanged, \<open>formatData\<close> returns the 3 by 3 matrix with rows \<open>[1, 2, 3]\<close>,
  \<open>[4, 5, 6]\<close>, \<open>[7, 8, 9]\<close>, \<open>curveFitting\<close> returns the column means \<open>[4, 5, 6]\<close>, and
  \<open>averageAndDisplay\<close> prints 5.0, which is also the outcome of the whole run.
\<close>

theorem pipeline_example:
  "getDataFromSerial [1, 2, 3, 4, 5, 6, 7, 8, 9] [] \<lparr>gain = 1, offset = 0\<rparr>
     = [1, 2, 3, 4, 5, 6, 7, 8, 9]
   \<and> (\<exists>m r. formatData [1, 2, 3, 4, 5, 6, 7, 8, 9] formatted_data = Inr m
          \<and> rows m = 3 \<and> cols m = 3
          \<and> matrix_rows m = [[1, 2, 3], [4, 5, 6], [7, 8, 9]]
          \<and> curveFitting m result \<lparr>decayFactor = 0\<rparr> = Inr r
          \<and> vector_list r = [4, 5, 6]
          \<and> averageAndDisplay r = Inr (Finite 5.0))
   \<and> main_run \<lparr>gain = 1, offset = 0\<rparr> \<lparr>decayFactor = 0\<rparr> [1, 2, 3, 4, 5, 6, 7, 8, 9]
        formatted_data result = Inr (Finite 5.0)"
proof -
  let ?raw = "[1, 2, 3, 4, 5, 6, 7, 8, 9 :: real]"
  have cond: "getDataFromSerial ?raw [] \<lparr>gain = 1, offset = 0\<rparr> = ?raw"
    by (simp add: getDataFromSerial_def)
  have root: "sqrt_size (length ?raw) = 3"
    by (rule sqrt_size_unique) simp_all
  have up3: "[0..<3] = [0, 1, 2]" by (simp add: upt_rec)
  define m where "m = formatted_data\<lparr>rows := 3, cols := 3,
     coeff := (\<lambda>(a, b). if a < 3 \<and> b < 3 then ?raw ! (a * 3 + b)
                          else coeff formatted_data (a, b))\<rparr>"
  have fmt: "formatData ?raw formatted_data = Inr m"
    unfolding m_def root[symmetric] by (rule formatData_result) simp
  have dims: "rows m = 3" "cols m = 3" by (simp_all add: m_def)
  have mrows: "matrix_rows m = [[1, 2, 3], [4, 5, 6], [7, 8, 9]]"
    by (simp add: matrix_rows_def dims up3) (simp add: m_def)
  define r where "r = result\<lparr>vsize := 3,
     vcoeff := (\<lambda>i. if i < 3
        then (\<Sum>j<3. coeff m (j, i) * exp (- decayFactor \<lparr>decayFactor = 0\<rparr> * real j)) / real (3::nat)
        else vcoeff result i)\<rparr>"
  have fit: "curveFitting m result \<lparr>decayFactor = 0\<rparr> = Inr r"
    unfolding r_def
    by (rule curveFitting_result[of m result "\<lparr>decayFactor = 0\<rparr>", unfolded dims]) simp_all
  have lt3: "{..<3::nat} = {0, 1, 2}" by auto
  have rlist: "vector_list r = [4, 5, 6]"
    by (simp add: vector_list_def r_def up3 lt3) (simp add: m_def)
  have rsize: "vsize r = 3" by (simp add: r_def)
  have avg: "averageAndDisplay r = Inr (Finite 5.0)"
    using rlist
    by (simp add: averageAndDisplay_def vector_sum_def rsize up3 vector_list_def ieee_div_def)
  have "main_run \<lparr>gain = 1, offset = 0\<rparr> \<lparr>decayFactor = 0\<rparr> ?raw formatted_data result
        = Inr (Finite 5.0)"
    unfolding main_run_def cond Let_def
    by (simp add: fmt lookupViscosity_example fit avg)
  then show ?thesis using cond fmt dims mrows fit rlist avg by blast
qed

text \<open>
  C9. For a non-empty sample sequence the matrix returned by \<open>formatData\<close> has at least
  one row and one column, so \<open>curveFitting\<close> applied to it does not throw the exception
  of the empty matrix and returns a vector. In the composed run the only exception is
  the one \<open>formatData\<close> throws for an empty sample sequence.
\<close>

theorem formatData_feeds_curveFitting:
  assumes "raw_data \<noteq> []"
  shows "\<exists>m. formatData raw_data formatted_data = Inr m
           \<and> 1 \<le> rows m \<and> 1 \<le> cols m
           \<and> curveFitting m result config \<noteq> Inl EmptyMatrix
           \<and> (\<exists>r. curveFitting m result config = Inr r)
           \<and> (\<forall>e. main_run conditioning config parsed formatted_data result = Inl e
                  \<longrightarrow> e = EmptyInput \<and> parsed = [])"
proof -
  have run: "e = EmptyInput \<and> parsed = []"
    if fail: "main_run conditioning config parsed formatted_data result = Inl e" for e
  proof (cases "parsed = []")
    case True
    then show ?thesis
      using fail by (simp add: main_run_def getDataFromSerial_eq formatData_def EmptyInput_def)
  next
    case False
    define raw where "raw = getDataFromSerial parsed [] conditioning"
    have ne: "raw \<noteq> []" using False by (simp add: raw_def getDataFromSerial_eq)
    have pos: "0 < sqrt_size (length raw)" using ne by (simp add: sqrt_size_pos)
    obtain m where m: "formatData raw formatted_data = Inr m"
        "rows m = sqrt_size (length raw)" "cols m = sqrt_size (length raw)"
      using formatData_result[OF ne, of formatted_data] by simp
    obtain r where r: "curveFitting m result config = Inr r" "vsize r = cols m"
      using curveFitting_result[of m result config] pos m(2,3) by simp
    have "\<exists>v. averageAndDisplay r = Inr v" by (simp add: averageAndDisplay_def)
    then have "\<exists>v. main_run conditioning config parsed formatted_data result = Inr v"
      by (simp add: main_run_def raw_def[symmetric] m(1) lookupViscosity_example r(1))
    with fail show ?thesis by auto
  qed
  have pos: "0 < sqrt_size (length raw_data)" using assms by (simp add: sqrt_size_pos)
  obtain m where m: "formatData raw_data formatted_data = Inr m"
      "rows m = sqrt_size (length raw_data)" "cols m = sqrt_size (length raw_data)"
    using formatData_result[OF assms, of formatted_data] by simp
  obtain r where r: "curveFitting m result config = Inr r"
    using curveFitting_result[of m result config] pos m(2,3) by simp
  have "1 \<le> rows m" "1 \<le> cols m" using pos m(2,3) by simp_all
  moreover have "curveFitting m result config \<noteq> Inl EmptyMatrix" using r by simp
  ultimately show ?thesis using m(1) r run by blast
qed

theorem formatData_feeds_curveFitting_witness:
  "\<exists>m r. formatData [7] \<lparr>rows = 0, cols = 0, coeff = (\<lambda>_. 0)\<rparr> = Inr m
        \<and> 1 \<le> rows m \<and> 1 \<le> cols m
        \<and> curveFitting m \<lparr>vsize = 0, vcoeff = (\<lambda>_. 0)\<rparr> \<lparr>decayFactor = 0.1\<rparr> = Inr r
        \<and> main_run \<lparr>gain = 1, offset = 0\<rparr> \<lparr>decayFactor = 0.1\<rparr> []
             \<lparr>rows = 0, cols = 0, coeff = (\<lambda>_. 0)\<rparr> \<lparr>vsize = 0, vcoeff = (\<lambda>_. 0)\<rparr> = Inl EmptyInput"
proof -
  have ne: "[7::real] \<noteq> []" by simp
  have fail: "main_run \<lparr>gain = 1, offset = 0\<rparr> \<lparr>decayFactor = 0.1\<rparr> []
             \<lparr>rows = 0, cols = 0, coeff = (\<lambda>_. 0)\<rparr> \<lparr>vsize = 0, vcoeff = (\<lambda>_. 0)\<rparr>
        = Inl (runtime_error ''Raw data is empty'')"
    by (simp add: main_run_def getDataFromSerial_def formatData_def)
  from formatData_feeds_curveFitting[OF ne,
      of "\<lparr>rows = 0, cols = 0, coeff = (\<lambda>_. 0)\<rparr>" "\<lparr>vsize = 0, vcoeff = (\<lambda>_. 0)\<rparr>"
         "\<lparr>decayFactor = 0.1\<rparr>" "\<lparr>gain = 1, offset = 0\<rparr>" "[]"]
  obtain m r where m: "formatData [7] \<lparr>rows = 0, cols = 0, coeff = (\<lambda>_. 0)\<rparr> = Inr m"
      "1 \<le> rows m" "1 \<le> cols m"
      "curveFitting m \<lparr>vsize = 0, vcoeff = (\<lambda>_. 0)\<rparr> \<lparr>decayFactor = 0.1\<rparr> = Inr r"
    and only: "\<forall>e. main_run \<lparr>gain = 1, offset = 0\<rparr> \<lparr>decayFactor = 0.1\<rparr> []
             \<lparr>rows = 0, cols = 0, coeff = (\<lambda>_. 0)\<rparr> \<lparr>vsize = 0, vcoeff = (\<lambda>_. 0)\<rparr> = Inl e
           \<longrightarrow> e = EmptyInput \<and> ([]::real list) = []"
    by blast
  from only fail have "runtime_error ''Raw data is empty'' = EmptyInput" by blast
  with fail m show ?thesis by auto
qed

end
